theory Spec2Isabelle
  imports Main "HOL-Library.Word" "HOL-Library.Sublist"
begin

section \<open>Byte buffers and DataView reads\<close>

text \<open>
  An ArrayBuffer is a fixed-length sequence of bytes; \<open>byteLength\<close> is its length.
  \<open>DataView.getUint32(byteOffset, littleEndian)\<close> returns an unsigned 32-bit number
  and throws a RangeError when the four bytes at \<open>byteOffset\<close> do not all lie
  inside the buffer.
\<close>

type_synonym byte = "8 word"
type_synonym ArrayBuffer = "byte list"

datatype js_error = RangeError | TypeError | Error string

definition getUint32 :: "ArrayBuffer \<Rightarrow> nat \<Rightarrow> bool \<Rightarrow> js_error + nat" where
  "getUint32 buf byteOffset littleEndian =
     (if byteOffset + 4 \<le> length buf then
        (let b0 = unat (buf ! byteOffset);
             b1 = unat (buf ! (byteOffset + 1));
             b2 = unat (buf ! (byteOffset + 2));
             b3 = unat (buf ! (byteOffset + 3))
         in Inr (if littleEndian
                 then b0 + 256 * b1 + 65536 * b2 + 16777216 * b3
                 else b3 + 256 * b2 + 65536 * b1 + 16777216 * b0))
      else Inl RangeError)"

section \<open>BootMii backup import (WebWii/bootmii-import.js)\<close>

definition BOOTMII_STANDARD_SIZE :: int where
  "BOOTMII_STANDARD_SIZE = 512 * 1024 * 1024"

definition SIZE_TOLERANCE :: int where
  "SIZE_TOLERANCE = 1024 * 1024"

record check_result =
  isValid :: bool
  message :: string

record size_result = check_result +
  isWarning :: bool

record validation_result = check_result +
  warnings :: "string list"

text \<open>
  \<open>validateBackupSize(size)\<close>. The helper \<open>formatBytes\<close> renders a size through
  floating-point logarithms; it is taken as a parameter, and the messages are the
  template strings of the source around its two results.
\<close>

definition validateBackupSize :: "(int \<Rightarrow> string) \<Rightarrow> int \<Rightarrow> size_result" where
  "validateBackupSize formatBytes sz =
     (let difference = \<bar>sz - BOOTMII_STANDARD_SIZE\<bar> in
      if difference > SIZE_TOLERANCE * 10 then
        \<lparr>isValid = False,
         message = ''Error: File size ('' @ formatBytes sz
           @ '') does not match standard BootMii backup size (''
           @ formatBytes BOOTMII_STANDARD_SIZE
           @ ''). This may not be a valid backup file.'',
         isWarning = False\<rparr>
      else if difference > SIZE_TOLERANCE then
        \<lparr>isValid = True,
         message = ''Warning: File size ('' @ formatBytes sz
           @ '') differs slightly from standard BootMii backup size (''
           @ formatBytes BOOTMII_STANDARD_SIZE
           @ ''). Proceeding with validation...'',
         isWarning = True\<rparr>
      else
        \<lparr>isValid = True, message = '''', isWarning = False\<rparr>)"

text \<open>
  The zero scan of \<open>performBackupValidation\<close>:
  \<^verbatim>\<open>for (let i = 0; i < Math.min(1024, arrayBuffer.byteLength); i += 4)
    if (view.getUint32(i, true) !== 0) { hasData = true; break; }\<close>
  \<open>zeroScan buf i\<close> is the loop from index \<open>i\<close> on; its result is \<open>hasData\<close>,
  or the exception a read throws.
\<close>

function zeroScan :: "ArrayBuffer \<Rightarrow> nat \<Rightarrow> js_error + bool" where
  "zeroScan buf i =
     (if i < min 1024 (length buf) then
        (case getUint32 buf i True of
           Inl e \<Rightarrow> Inl e
         | Inr w \<Rightarrow> if w \<noteq> 0 then Inr True else zeroScan buf (i + 4))
      else Inr False)"
  by pat_completeness auto
termination
  by (relation "measure (\<lambda>(buf, i). 1024 - i)") auto

declare zeroScan.simps [simp del]

definition performBackupValidation :: "ArrayBuffer \<Rightarrow> js_error + validation_result" where
  "performBackupValidation arrayBuffer =
     (if length arrayBuffer = 0 then
        Inr \<lparr>isValid = False, message = ''Error: Backup file is empty.'', warnings = []\<rparr>
      else
        (case zeroScan arrayBuffer 0 of
           Inl e \<Rightarrow> Inl e
         | Inr hasData \<Rightarrow>
             Inr \<lparr>isValid = True, message = '''',
                  warnings = (if \<not> hasData then
                    [''First 1KB of backup appears to be empty. This may indicate a corrupted backup.'']
                    else [])\<rparr>))"

section \<open>WAD/DOL handler (WebWii/wad-handler.js)\<close>

definition DOL_TEXT_OFFSET :: nat where "DOL_TEXT_OFFSET = 0x00"
definition DOL_DATA_OFFSET :: nat where "DOL_DATA_OFFSET = 0x1C"

definition validateWadFile :: "ArrayBuffer \<Rightarrow> js_error + bool" where
  "validateWadFile arrayBuffer =
     (if length arrayBuffer < 64 then Inr False
      else
        (case getUint32 arrayBuffer 0 False of
           Inl e \<Rightarrow> Inl e
         | Inr headerSignature \<Rightarrow>
             if headerSignature = 0x49730000 \<or> headerSignature = 0x69620000
             then Inr True
             else Inr True))"

definition validateDolFile :: "ArrayBuffer \<Rightarrow> js_error + bool" where
  "validateDolFile arrayBuffer =
     (if length arrayBuffer < 0x100 then Inr False
      else
        (case getUint32 arrayBuffer DOL_TEXT_OFFSET False of
           Inl e \<Rightarrow> Inl e
         | Inr textOffset0 \<Rightarrow>
             (case getUint32 arrayBuffer DOL_DATA_OFFSET False of
                Inl e \<Rightarrow> Inl e
              | Inr dataOffset0 \<Rightarrow>
                  if textOffset0 > 0 \<and> textOffset0 < length arrayBuffer then Inr True
                  else if dataOffset0 > 0 \<and> dataOffset0 < length arrayBuffer then Inr True
                  else Inr True)))"

text \<open>The earlier copy of the handler (unnamed/part\_003) has the same two size guards
  and no header read.\<close>

definition validateWadFile_part003 :: "ArrayBuffer \<Rightarrow> js_error + bool" where
  "validateWadFile_part003 arrayBuffer = (if length arrayBuffer < 64 then Inr False else Inr True)"

definition validateDolFile_part003 :: "ArrayBuffer \<Rightarrow> js_error + bool" where
  "validateDolFile_part003 arrayBuffer = (if length arrayBuffer < 0x100 then Inr False else Inr True)"

text \<open>
  \<open>filename.split('.').pop().toLowerCase()\<close>: the segment after the last dot (the whole
  name when it has no dot), lower-cased. Strings are modelled as lists of 8-bit
  characters; \<open>toLowerCase\<close> maps \<open>A\<close>..\<open>Z\<close> to \<open>a\<close>..\<open>z\<close> and leaves every other
  character alone.
\<close>

fun split :: "char \<Rightarrow> string \<Rightarrow> string list" where
  "split sep [] = [[]]"
| "split sep (c # cs) =
     (if c = sep then [] # split sep cs
      else (let r = split sep cs in (c # hd r) # tl r))"

definition toLowerCase_char :: "char \<Rightarrow> char" where
  "toLowerCase_char c =
     (let n = (of_char c :: nat) in if 65 \<le> n \<and> n \<le> 90 then char_of (n + 32) else c)"

definition toLowerCase :: "string \<Rightarrow> string" where
  "toLowerCase s = map toLowerCase_char s"

datatype file_type = WAD | DOL

definition detectFileType :: "string \<Rightarrow> ArrayBuffer \<Rightarrow> js_error + file_type option" where
  "detectFileType filename arrayBuffer =
     (let extension = toLowerCase (last (split (CHR ''.'') filename)) in
      if extension = ''wad'' then
        (case validateWadFile arrayBuffer of
           Inl e \<Rightarrow> Inl e
         | Inr ok \<Rightarrow> Inr (if ok then Some WAD else None))
      else if extension = ''dol'' then
        (case validateDolFile arrayBuffer of
           Inl e \<Rightarrow> Inl e
         | Inr ok \<Rightarrow> Inr (if ok then Some DOL else None))
      else Inr None)"

section \<open>Virtual file systems (webwii/dolphin-loader.js, unnamed/part\_002)\<close>

text \<open>
  \<open>Module.FS\<close> is Emscripten's file system, an external service. The model records
  the calls the code makes to it, in order, with the path each call names. The exception
  an external call throws, if any, and the answers of the engine's boot entry points are
  parameters.
\<close>

datatype fs_call = Mkdir string | WriteFile string ArrayBuffer | Mount string | Syncfs bool

fun call_path :: "fs_call \<Rightarrow> string list" where
  "call_path (Mkdir p) = [p]"
| "call_path (WriteFile p d) = [p]"
| "call_path (Mount p) = [p]"
| "call_path (Syncfs populate) = []"

datatype boot_method = InstanceBootFile | Ccall | NoBootMethod

record externals =
  fsThrows :: "fs_call \<Rightarrow> js_error option"
  bootFile :: "string \<Rightarrow> js_error + bool"
  ccall :: "string \<Rightarrow> js_error option"

record DolphinLoader =
  isReady :: bool
  hasModuleFS :: bool
  hasSyncfs :: bool
  bootMethod :: boot_method
  fsCalls :: "fs_call list"

text \<open>
  \<open>setupFileSystem()\<close>: every \<open>mkdir\<close> sits in its own try/catch, whose handler only
  reads the message of the exception (exceptions are Error objects, which carry one), so
  the four calls are always made; a throwing \<open>mount\<close> or \<open>syncfs\<close> ends the function
  through the outer catch.
\<close>

definition setupFileSystem :: "externals \<Rightarrow> DolphinLoader \<Rightarrow> DolphinLoader" where
  "setupFileSystem ext dl =
     (if \<not> hasModuleFS dl then dl
      else
        (let dirs = [''/roms'', ''/saves'', ''/states'', ''/user''];
             dl1 = dl\<lparr>fsCalls := fsCalls dl @ map Mkdir dirs\<rparr>
         in if hasSyncfs dl then
              (if fsThrows ext (Mount ''/saves'') \<noteq> None
               then dl1\<lparr>fsCalls := fsCalls dl1 @ [Mount ''/saves'']\<rparr>
               else if fsThrows ext (Mount ''/states'') \<noteq> None
               then dl1\<lparr>fsCalls := fsCalls dl1 @ [Mount ''/saves'', Mount ''/states'']\<rparr>
               else dl1\<lparr>fsCalls := fsCalls dl1 @ [Mount ''/saves'', Mount ''/states'', Syncfs True]\<rparr>)
            else dl1))"

text \<open>
  \<open>bootROM(filename, data)\<close>: the result is the returned boolean or the error thrown
  (the catch block logs and rethrows), together with the loader after the call.
\<close>

definition bootROM ::
  "externals \<Rightarrow> string \<Rightarrow> ArrayBuffer \<Rightarrow> DolphinLoader \<Rightarrow> (js_error + bool) \<times> DolphinLoader" where
  "bootROM ext filename data dl =
     (if \<not> isReady dl then (Inl (Error ''Dolphin is not ready. Call init() first.''), dl)
      else if \<not> hasModuleFS dl then (Inl TypeError, dl)
      else
        (let romPath = ''/roms/'' @ filename;
             dl1 = dl\<lparr>fsCalls := fsCalls dl @ [WriteFile romPath data]\<rparr>
         in case fsThrows ext (WriteFile romPath data) of
              Some e \<Rightarrow> (Inl e, dl1)
            | None \<Rightarrow>
                (case bootMethod dl of
                   InstanceBootFile \<Rightarrow> (bootFile ext romPath, dl1)
                 | Ccall \<Rightarrow>
                     (case ccall ext romPath of
                        Some e \<Rightarrow> (Inl e, dl1)
                      | None \<Rightarrow> (Inr True, dl1))
                 | NoBootMethod \<Rightarrow> (Inl (Error ''No boot method available''), dl1))))"

record RetroArch =
  moduleDefined :: bool
  moduleHasFS :: bool
  retroCalls :: "fs_call list"

text \<open>\<open>loadROMIntoRetroArch(filename, data)\<close>: everything is inside one try/catch that only
  logs, so the function always returns normally.\<close>

definition loadROMIntoRetroArch :: "string \<Rightarrow> ArrayBuffer \<Rightarrow> RetroArch \<Rightarrow> RetroArch" where
  "loadROMIntoRetroArch filename data ra =
     (if \<not> moduleDefined ra \<or> \<not> moduleHasFS ra then ra
      else
        (let romPath = ''/tmp/'' @ filename
         in ra\<lparr>retroCalls := retroCalls ra @ [WriteFile romPath data]\<rparr>))"

section \<open>The confirmation modal (unnamed/part\_004, showNandWarning)\<close>

text \<open>
  The part of the document \<open>showNandWarning\<close> touches: the modal's \<open>style.display\<close>, the
  text of the message element, and the click listeners of the confirm and cancel buttons
  that are in the document. \<open>None\<close> stands for an element \<open>getElementById\<close> does not find.
  A clone made by \<open>cloneNode(true)\<close> carries no listeners, and \<open>replaceChild\<close> puts it in
  the place of the old button.
\<close>

datatype 'cb listener = ConfirmListener "'cb option" | CancelListener

record 'cb nand_modal =
  modalDisplay :: "string option"
  warningMessage :: "string option"
  confirmListeners :: "'cb listener list option"
  cancelListeners :: "'cb listener list option"

definition showNandWarning ::
  "string \<Rightarrow> 'cb option \<Rightarrow> 'cb nand_modal \<Rightarrow> js_error option \<times> 'cb nand_modal" where
  "showNandWarning msg onConfirm d =
     (if modalDisplay d = None then (None, d)
      else if warningMessage d = None then (Some TypeError, d)
      else
        (let d1 = d\<lparr>modalDisplay := Some ''flex'', warningMessage := Some msg\<rparr>
         in if confirmListeners d1 = None then (Some TypeError, d1)
            else if cancelListeners d1 = None then (Some TypeError, d1)
            else (None, d1\<lparr>confirmListeners := Some [ConfirmListener onConfirm],
                            cancelListeners := Some [CancelListener]\<rparr>)))"

text \<open>A click runs the listeners of the button in registration order. The result lists
  the \<open>onConfirm\<close> callbacks the listeners invoke, in order.\<close>

fun fire :: "'cb listener \<Rightarrow> 'cb list \<times> 'cb nand_modal \<Rightarrow> 'cb list \<times> 'cb nand_modal" where
  "fire (ConfirmListener onConfirm) (invoked, d) =
     (invoked @ (case onConfirm of None \<Rightarrow> [] | Some cb \<Rightarrow> [cb]),
      d\<lparr>modalDisplay := Some ''none''\<rparr>)"
| "fire CancelListener (invoked, d) = (invoked, d\<lparr>modalDisplay := Some ''none''\<rparr>)"

definition click :: "'cb listener list option \<Rightarrow> 'cb nand_modal \<Rightarrow> 'cb list \<times> 'cb nand_modal" where
  "click button d = (case button of None \<Rightarrow> ([], d) | Some ls \<Rightarrow> fold fire ls ([], d))"

definition clickConfirm :: "'cb nand_modal \<Rightarrow> 'cb list \<times> 'cb nand_modal" where
  "clickConfirm d = click (confirmListeners d) d"

definition clickCancel :: "'cb nand_modal \<Rightarrow> 'cb list \<times> 'cb nand_modal" where
  "clickCancel d = click (cancelListeners d) d"

text \<open>Runs of the modal: requests and clicks, with the callbacks invoked so far.\<close>

datatype 'cb modal_event = Request string "'cb option" | ConfirmClick | CancelClick

fun modal_step :: "'cb modal_event \<Rightarrow> 'cb list \<times> 'cb nand_modal \<Rightarrow> 'cb list \<times> 'cb nand_modal" where
  "modal_step (Request msg onConfirm) (invoked, d) = (invoked, snd (showNandWarning msg onConfirm d))"
| "modal_step ConfirmClick (invoked, d) = (invoked @ fst (clickConfirm d), snd (clickConfirm d))"
| "modal_step CancelClick (invoked, d) = (invoked @ fst (clickCancel d), snd (clickCancel d))"

text \<open>A run in which the two buttons are clicked only while the modal is displayed.\<close>

fun clicks_while_displayed :: "'cb modal_event list \<Rightarrow> 'cb nand_modal \<Rightarrow> bool" where
  "clicks_while_displayed [] d = True"
| "clicks_while_displayed (Request msg onConfirm # es) d =
     clicks_while_displayed es (snd (showNandWarning msg onConfirm d))"
| "clicks_while_displayed (ConfirmClick # es) d =
     (modalDisplay d = Some ''flex'' \<and> clicks_while_displayed es (snd (clickConfirm d)))"
| "clicks_while_displayed (CancelClick # es) d =
     (modalDisplay d = Some ''flex'' \<and> clicks_while_displayed es (snd (clickCancel d)))"

fun requested :: "'cb modal_event list \<Rightarrow> 'cb list" where
  "requested [] = []"
| "requested (Request msg (Some cb) # es) = cb # requested es"
| "requested (e # es) = requested es"

section \<open>The install flow of the WAD/DOL page (WebWii/wad-handler.js)\<close>

text \<open>
  The page state the install button, the modal and \<open>performNandInstallation\<close> work on.
  A \<open>File\<close> is represented by its name. An entry of \<open>intervals\<close> is a live
  \<open>setInterval\<close> timer of \<open>performNandInstallation\<close> with the \<open>file\<close>, \<open>fileType\<close>
  and \<open>progress\<close> of its closure. \<open>progressEvents\<close> lists the percentages passed to
  \<open>updateProgress\<close>. The timestamp in the cookie is left out.
\<close>

datatype callback = InstallCurrentFile

record wad_page =
  nandModal :: "callback nand_modal"
  currentFile :: "string option"
  currentFileType :: "file_type option"
  statusDiv :: "(string \<times> string) option"
  progressBar :: "string option"
  fillWidth :: "nat option"
  intervals :: "(nat \<times> string option \<times> file_type option \<times> nat) list"
  nextTimer :: nat
  progressEvents :: "nat list"
  lastWadDolInstall :: "(string \<times> file_type option) option"
  hideTimeouts :: nat

fun typeName :: "file_type option \<Rightarrow> string" where
  "typeName (Some WAD) = ''WAD''"
| "typeName (Some DOL) = ''DOL''"
| "typeName None = ''null''"

definition updateProgress :: "nat \<Rightarrow> wad_page \<Rightarrow> wad_page" where
  "updateProgress percent p =
     p\<lparr>fillWidth := map_option (\<lambda>w. percent) (fillWidth p),
       progressEvents := progressEvents p @ [percent]\<rparr>"

definition performNandInstallation ::
  "string option \<Rightarrow> file_type option \<Rightarrow> wad_page \<Rightarrow> js_error option \<times> wad_page" where
  "performNandInstallation file fileType p =
     (case statusDiv p of
        None \<Rightarrow> (Some TypeError, p)
      | Some st \<Rightarrow>
          (let p1 = p\<lparr>statusDiv :=
                 Some (''info'', ''Installing '' @ typeName fileType @ '' file to virtual NAND...'')\<rparr>
           in case progressBar p1 of
                None \<Rightarrow> (Some TypeError, p1)
              | Some disp \<Rightarrow>
                  (None, p1\<lparr>progressBar := Some ''block'',
                            intervals := intervals p1 @ [(nextTimer p1, file, fileType, 0)],
                            nextTimer := Suc (nextTimer p1)\<rparr>)))"

text \<open>One firing of the interval callback of timer \<open>tid\<close>.\<close>

definition installTick :: "nat \<Rightarrow> wad_page \<Rightarrow> wad_page" where
  "installTick tid p =
     (case map_of (intervals p) tid of
        None \<Rightarrow> p
      | Some (file, fileType, progress) \<Rightarrow>
          (let progress' = progress + 10;
               p1 = updateProgress progress' p
           in if progress' \<ge> 100 then
                (let p2 = p1\<lparr>intervals := filter (\<lambda>t. fst t \<noteq> tid) (intervals p1)\<rparr>
                 in case file of
                      None \<Rightarrow> p2
                    | Some name \<Rightarrow>
                        p2\<lparr>statusDiv := map_option (\<lambda>st. (''success'',
                               typeName fileType @ '' file '' @ [CHR 0x22] @ name @ [CHR 0x22]
                                 @ '' installed successfully to virtual NAND!'')) (statusDiv p2),
                           lastWadDolInstall := Some (name, fileType),
                           hideTimeouts := Suc (hideTimeouts p2)\<rparr>)
              else p1\<lparr>intervals :=
                     map (\<lambda>t. if fst t = tid then (tid, file, fileType, progress') else t)
                       (intervals p1)\<rparr>))"

text \<open>The click handler of the install button, and the clicks on the modal's buttons
  with the callbacks they invoke run on the page.\<close>

definition installWarning :: "string \<Rightarrow> string" where
  "installWarning name =
     ''You are about to install '' @ [CHR 0x22] @ name @ [CHR 0x22]
       @ '' to the virtual NAND. This operation may overwrite existing data. Are you sure you want to proceed?''"

definition installClick :: "wad_page \<Rightarrow> wad_page" where
  "installClick p =
     (case currentFile p of
        None \<Rightarrow> p
      | Some name \<Rightarrow>
          (case currentFileType p of
             None \<Rightarrow> p
           | Some t \<Rightarrow>
               p\<lparr>nandModal := snd (showNandWarning (installWarning name)
                    (Some InstallCurrentFile) (nandModal p))\<rparr>))"

fun invoke :: "callback \<Rightarrow> wad_page \<Rightarrow> wad_page" where
  "invoke InstallCurrentFile p = snd (performNandInstallation (currentFile p) (currentFileType p) p)"

definition confirmClick :: "wad_page \<Rightarrow> wad_page" where
  "confirmClick p =
     fold invoke (fst (clickConfirm (nandModal p))) (p\<lparr>nandModal := snd (clickConfirm (nandModal p))\<rparr>)"

definition cancelClick :: "wad_page \<Rightarrow> wad_page" where
  "cancelClick p =
     fold invoke (fst (clickCancel (nandModal p))) (p\<lparr>nandModal := snd (clickCancel (nandModal p))\<rparr>)"

section \<open>Events of the whole page\<close>

record world =
  page :: wad_page
  dolphin :: DolphinLoader
  retroArch :: RetroArch

datatype event =
    InstallClicked | ConfirmClicked | CancelClicked | IntervalFired nat | HideTimeoutFired
  | SetupFileSystem | BootROM string ArrayBuffer | LoadROM string ArrayBuffer

fun step :: "externals \<Rightarrow> event \<Rightarrow> world \<Rightarrow> world" where
  "step ext InstallClicked w = w\<lparr>page := installClick (page w)\<rparr>"
| "step ext ConfirmClicked w = w\<lparr>page := confirmClick (page w)\<rparr>"
| "step ext CancelClicked w = w\<lparr>page := cancelClick (page w)\<rparr>"
| "step ext (IntervalFired tid) w = w\<lparr>page := installTick tid (page w)\<rparr>"
| "step ext HideTimeoutFired w =
     (if hideTimeouts (page w) = 0 then w
      else w\<lparr>page := (page w)\<lparr>progressBar := map_option (\<lambda>disp. ''none'') (progressBar (page w)),
                               hideTimeouts := hideTimeouts (page w) - 1\<rparr>\<rparr>)"
| "step ext SetupFileSystem w = w\<lparr>dolphin := setupFileSystem ext (dolphin w)\<rparr>"
| "step ext (BootROM filename data) w = w\<lparr>dolphin := snd (bootROM ext filename data (dolphin w))\<rparr>"
| "step ext (LoadROM filename data) w = w\<lparr>retroArch := loadROMIntoRetroArch filename data (retroArch w)\<rparr>"

definition run :: "externals \<Rightarrow> event list \<Rightarrow> world \<Rightarrow> world" where
  "run ext es w = fold (step ext) es w"

definition staged_paths :: "world \<Rightarrow> string list" where
  "staged_paths w = concat (map call_path (fsCalls (dolphin w) @ retroCalls (retroArch w)))"

text \<open>Vocabulary of the properties: a path lies under a root directory; all four
  elements of the modal are in the document; the page as it stands once a file has been
  loaded and recognised, with engines that never throw.\<close>

definition under_root :: "string \<Rightarrow> string \<Rightarrow> bool" where
  "under_root r p = (p = r \<or> prefix (r @ ''/'') p)"

definition modal_present :: "'cb nand_modal \<Rightarrow> bool" where
  "modal_present d =
     (modalDisplay d \<noteq> None \<and> warningMessage d \<noteq> None
      \<and> confirmListeners d \<noteq> None \<and> cancelListeners d \<noteq> None)"

definition loaded_world :: "string \<Rightarrow> file_type \<Rightarrow> world" where
  "loaded_world name t =
     \<lparr>page = \<lparr>nandModal = \<lparr>modalDisplay = Some ''none'', warningMessage = Some [],
                              confirmListeners = Some [], cancelListeners = Some []\<rparr>,
              currentFile = Some name, currentFileType = Some t,
              statusDiv = Some (''success'',
                typeName (Some t) @ '' file loaded successfully! Review the information above.''),
              progressBar = Some ''none'',
              fillWidth = Some 100, intervals = [], nextTimer = 0, progressEvents = [],
              lastWadDolInstall = None, hideTimeouts = 0\<rparr>,
      dolphin = \<lparr>isReady = True, hasModuleFS = True, hasSyncfs = False,
                 bootMethod = Ccall, fsCalls = []\<rparr>,
      retroArch = \<lparr>moduleDefined = True, moduleHasFS = True, retroCalls = []\<rparr>\<rparr>"

definition quiet :: externals where
  "quiet = \<lparr>fsThrows = (\<lambda>c. None), bootFile = (\<lambda>p. Inr True), ccall = (\<lambda>p. None)\<rparr>"

section \<open>Properties of the validators\<close>

subsection \<open>The zero scan on buffers whose scanned prefix is a whole number of words\<close>

lemma getUint32_in_range:
  "byteOffset + 4 \<le> length buf \<Longrightarrow> \<exists>w. getUint32 buf byteOffset le = Inr w \<and>
     (w = 0 \<longleftrightarrow> buf ! byteOffset = 0 \<and> buf ! (byteOffset + 1) = 0
        \<and> buf ! (byteOffset + 2) = 0 \<and> buf ! (byteOffset + 3) = 0)"
  by (auto simp: getUint32_def Let_def unat_eq_0)

lemma four_bytes:
  "(\<exists>j. i \<le> j \<and> j < n \<and> P j) \<longleftrightarrow>
     (i < n \<and> P i) \<or> (i + 1 < n \<and> P (i + 1)) \<or> (i + 2 < n \<and> P (i + 2)) \<or> (i + 3 < n \<and> P (i + 3))
      \<or> (\<exists>j. i + 4 \<le> j \<and> j < n \<and> P j)" for i n :: nat
proof -
  have "i \<le> j \<longleftrightarrow> j = i \<or> j = i + 1 \<or> j = i + 2 \<or> j = i + 3 \<or> i + 4 \<le> j" for j
    by arith
  then show ?thesis by auto
qed

lemma zeroScan_aligned:
  "4 dvd min 1024 (length buf) \<Longrightarrow> 4 dvd i \<Longrightarrow>
   zeroScan buf i = Inr (\<exists>j. i \<le> j \<and> j < min 1024 (length buf) \<and> buf ! j \<noteq> 0)"
proof (induction buf i rule: zeroScan.induct)
  case (1 buf i)
  let ?n = "min 1024 (length buf)"
  show ?case
  proof (cases "i < ?n")
    case False
    then show ?thesis by (subst zeroScan.simps) auto
  next
    case True
    from True "1.prems" have le: "i + 4 \<le> ?n"
      by (elim dvdE) presburger
    then have inb: "i + 4 \<le> length buf" by simp
    from getUint32_in_range [OF inb, of True] obtain w where
      w: "getUint32 buf i True = Inr w"
      and w0: "w = 0 \<longleftrightarrow> buf ! i = 0 \<and> buf ! (i + 1) = 0 \<and> buf ! (i + 2) = 0 \<and> buf ! (i + 3) = 0"
      by blast
    show ?thesis
    proof (cases "w = 0")
      case False
      with w0 le have "\<exists>j. i \<le> j \<and> j < ?n \<and> buf ! j \<noteq> 0"
        by (subst four_bytes) auto
      with True w False show ?thesis by (subst zeroScan.simps) simp
    next
      case z: True
      from "1.prems" have "4 dvd (i + 4)" by simp
      with "1.IH" [OF True w] z "1.prems"
      have "zeroScan buf (i + 4) = Inr (\<exists>j. i + 4 \<le> j \<and> j < ?n \<and> buf ! j \<noteq> 0)" by simp
      moreover from z w0 le have "(\<exists>j. i \<le> j \<and> j < ?n \<and> buf ! j \<noteq> 0)
          \<longleftrightarrow> (\<exists>j. i + 4 \<le> j \<and> j < ?n \<and> buf ! j \<noteq> 0)"
        by (subst four_bytes) auto
      ultimately show ?thesis using True w z by (subst zeroScan.simps) simp
    qed
  qed
qed

lemma take_all_zero:
  "set (take n buf) \<subseteq> {0} \<longleftrightarrow> \<not> (\<exists>j. 0 \<le> j \<and> j < min n (length buf) \<and> buf ! j \<noteq> 0)"
  by (auto simp: set_conv_nth)

lemma performBackupValidation_aligned:
  assumes "buf \<noteq> []" and "4 dvd min 1024 (length buf)"
  shows "performBackupValidation buf =
     Inr \<lparr>isValid = True, message = '''',
          warnings = (if set (take 1024 buf) \<subseteq> {0} then
             [''First 1KB of backup appears to be empty. This may indicate a corrupted backup.'']
             else [])\<rparr>"
proof -
  have "(\<not> set (take 1024 buf) \<subseteq> {0})
      \<longleftrightarrow> (\<exists>j. 0 \<le> j \<and> j < min 1024 (length buf) \<and> buf ! j \<noteq> 0)"
    by (simp only: take_all_zero not_not)
  with zeroScan_aligned [OF assms(2), of 0]
  have "zeroScan buf 0 = Inr (\<not> set (take 1024 buf) \<subseteq> {0})"
    by simp
  with assms(1) show ?thesis by (simp add: performBackupValidation_def)
qed

subsection \<open>The scanned words and the leading bytes\<close>

lemma getUint32_zero_iff:
  assumes "byteOffset + 4 \<le> length buf"
  shows "getUint32 buf byteOffset le = Inr 0 \<longleftrightarrow>
     buf ! byteOffset = 0 \<and> buf ! (byteOffset + 1) = 0
        \<and> buf ! (byteOffset + 2) = 0 \<and> buf ! (byteOffset + 3) = 0"
  using getUint32_in_range [OF assms, of le] by auto

lemma scanned_words_zero:
  assumes "1024 \<le> length b"
  shows "(\<forall>k<256. getUint32 b (4 * k) True = Inr 0) \<longleftrightarrow> set (take 1024 b) \<subseteq> {0}"
proof -
  have bytes: "set (take 1024 b) \<subseteq> {0} \<longleftrightarrow> (\<forall>j<1024. b ! j = 0)"
    using assms by (auto simp: take_all_zero)
  have "(\<forall>k<256. getUint32 b (4 * k) True = Inr 0) \<longleftrightarrow> (\<forall>j<1024. b ! j = 0)"
  proof
    assume w: "\<forall>k<256. getUint32 b (4 * k) True = Inr 0"
    show "\<forall>j<1024. b ! j = 0"
    proof (intro allI impI)
      fix j :: nat assume j: "j < 1024"
      then have k: "j div 4 < 256" by simp
      with assms have "4 * (j div 4) + 4 \<le> length b" by simp
      from getUint32_zero_iff [OF this, of True] w k
      have z: "b ! (4 * (j div 4)) = 0 \<and> b ! (4 * (j div 4) + 1) = 0
         \<and> b ! (4 * (j div 4) + 2) = 0 \<and> b ! (4 * (j div 4) + 3) = 0" by blast
      have "j = 4 * (j div 4) \<or> j = 4 * (j div 4) + 1 \<or> j = 4 * (j div 4) + 2 \<or> j = 4 * (j div 4) + 3"
        by presburger
      with z show "b ! j = 0" by metis
    qed
  next
    assume z: "\<forall>j<1024. b ! j = 0"
    show "\<forall>k<256. getUint32 b (4 * k) True = Inr 0"
    proof (intro allI impI)
      fix k :: nat assume k: "k < 256"
      with assms have "4 * k + 4 \<le> length b" by simp
      from getUint32_zero_iff [OF this, of True] z k show "getUint32 b (4 * k) True = Inr 0"
        by simp
    qed
  qed
  with bytes show ?thesis by simp
qed

subsection \<open>The header checks\<close>

lemma validateWadFile_eq: "validateWadFile b = Inr (64 \<le> length b)"
  by (simp add: validateWadFile_def getUint32_def Let_def)

lemma validateDolFile_eq: "validateDolFile b = Inr (256 \<le> length b)"
  by (simp add: validateDolFile_def getUint32_def Let_def DOL_TEXT_OFFSET_def DOL_DATA_OFFSET_def)

section \<open>Properties of the confirmation modal\<close>

lemma showNandWarning_present:
  "modal_present d \<Longrightarrow>
   showNandWarning msg onConfirm d =
     (None, d\<lparr>modalDisplay := Some ''flex'', warningMessage := Some msg,
              confirmListeners := Some [ConfirmListener onConfirm],
              cancelListeners := Some [CancelListener]\<rparr>)"
  by (auto simp: showNandWarning_def modal_present_def Let_def)

lemma modal_present_showNandWarning:
  "modal_present d \<Longrightarrow> modal_present (snd (showNandWarning msg onConfirm d))"
  by (simp add: showNandWarning_present) (simp add: modal_present_def)

lemma clickConfirm_single:
  "confirmListeners d = Some [ConfirmListener onConfirm] \<Longrightarrow>
   clickConfirm d = ((case onConfirm of None \<Rightarrow> [] | Some cb \<Rightarrow> [cb]), d\<lparr>modalDisplay := Some ''none''\<rparr>)"
  by (simp add: clickConfirm_def click_def)

lemma clickCancel_single:
  "cancelListeners d = Some [CancelListener] \<Longrightarrow>
   clickCancel d = ([], d\<lparr>modalDisplay := Some ''none''\<rparr>)"
  by (simp add: clickCancel_def click_def)

lemma fold_requests_listeners:
  "modal_present d \<Longrightarrow> rs \<noteq> [] \<Longrightarrow>
   modal_present (fold (\<lambda>r d. snd (showNandWarning (fst r) (snd r) d)) rs d)
   \<and> confirmListeners (fold (\<lambda>r d. snd (showNandWarning (fst r) (snd r) d)) rs d)
       = Some [ConfirmListener (snd (last rs))]
   \<and> cancelListeners (fold (\<lambda>r d. snd (showNandWarning (fst r) (snd r) d)) rs d)
       = Some [CancelListener]"
proof (induction rs arbitrary: d)
  case Nil
  then show ?case by simp
next
  case (Cons r rs)
  let ?d = "snd (showNandWarning (fst r) (snd r) d)"
  have p: "modal_present ?d" using Cons.prems(1) by (rule modal_present_showNandWarning)
  show ?case
  proof (cases "rs = []")
    case True
    with Cons.prems(1) p show ?thesis by (simp add: showNandWarning_present)
  next
    case False
    with Cons.IH [OF p] show ?thesis by simp
  qed
qed

text \<open>Invariant of the modal: while it is displayed, each button carries exactly the
  listener of the latest request.\<close>

lemma modal_run_invoked:
  assumes "modal_present d"
    and "modalDisplay d = Some ''flex'' \<longrightarrow>
           (\<exists>cb. confirmListeners d = Some [ConfirmListener cb] \<and> set_option cb \<subseteq> A)
           \<and> cancelListeners d = Some [CancelListener]"
    and "clicks_while_displayed es d"
  shows "set (fst (fold modal_step es (invoked, d))) \<subseteq> set invoked \<union> A \<union> set (requested es)"
  using assms
proof (induction es arbitrary: d invoked A)
  case Nil
  then show ?case by auto
next
  case (Cons e es)
  show ?case
  proof (cases e)
    case (Request msg onConfirm)
    let ?d = "snd (showNandWarning msg onConfirm d)"
    have p: "modal_present ?d" using Cons.prems(1) by (rule modal_present_showNandWarning)
    have l: "modalDisplay ?d = Some ''flex'' \<longrightarrow>
           (\<exists>cb. confirmListeners ?d = Some [ConfirmListener cb] \<and> set_option cb \<subseteq> A \<union> set_option onConfirm)
           \<and> cancelListeners ?d = Some [CancelListener]"
      using Cons.prems(1) by (simp add: showNandWarning_present)
    have c: "clicks_while_displayed es ?d" using Cons.prems(3) Request by simp
    have r: "set_option onConfirm \<union> set (requested es) = set (requested (e # es))"
      using Request by (cases onConfirm) auto
    from Cons.IH [OF p l c, of invoked] r Request show ?thesis by auto
  next
    case ConfirmClick
    from Cons.prems(3) ConfirmClick have disp: "modalDisplay d = Some ''flex''"
      and c: "clicks_while_displayed es (snd (clickConfirm d))" by simp_all
    from Cons.prems(2) disp obtain cb where
      cb: "confirmListeners d = Some [ConfirmListener cb]" and cbA: "set_option cb \<subseteq> A"
      by blast
    let ?d = "d\<lparr>modalDisplay := Some ''none''\<rparr>"
    have cc: "clickConfirm d = ((case cb of None \<Rightarrow> [] | Some x \<Rightarrow> [x]), ?d)"
      using cb by (rule clickConfirm_single)
    have p: "modal_present ?d" using Cons.prems(1) by (simp add: modal_present_def)
    have l: "modalDisplay ?d = Some ''flex'' \<longrightarrow>
           (\<exists>cb. confirmListeners ?d = Some [ConfirmListener cb] \<and> set_option cb \<subseteq> A)
           \<and> cancelListeners ?d = Some [CancelListener]" by simp
    from c cc have c': "clicks_while_displayed es ?d" by simp
    from Cons.IH [OF p l c', of "invoked @ (case cb of None \<Rightarrow> [] | Some x \<Rightarrow> [x])"]
      cc cbA ConfirmClick show ?thesis by (cases cb) auto
  next
    case CancelClick
    from Cons.prems(3) CancelClick have disp: "modalDisplay d = Some ''flex''"
      and c: "clicks_while_displayed es (snd (clickCancel d))" by simp_all
    from Cons.prems(2) disp have cl: "cancelListeners d = Some [CancelListener]" by blast
    let ?d = "d\<lparr>modalDisplay := Some ''none''\<rparr>"
    have cc: "clickCancel d = ([], ?d)" using cl by (rule clickCancel_single)
    have p: "modal_present ?d" using Cons.prems(1) by (simp add: modal_present_def)
    have l: "modalDisplay ?d = Some ''flex'' \<longrightarrow>
           (\<exists>cb. confirmListeners ?d = Some [ConfirmListener cb] \<and> set_option cb \<subseteq> A)
           \<and> cancelListeners ?d = Some [CancelListener]" by simp
    from c cc have c': "clicks_while_displayed es ?d" by simp
    from Cons.IH [OF p l c', of invoked] cc CancelClick show ?thesis by auto
  qed
qed

section \<open>Properties of the virtual file systems\<close>

lemma setupFileSystem_paths:
  "set (concat (map call_path (fsCalls (setupFileSystem ext dl))))
     \<subseteq> set (concat (map call_path (fsCalls dl))) \<union> {''/roms'', ''/saves'', ''/states'', ''/user''}"
  by (auto simp: setupFileSystem_def Let_def)

lemma bootROM_paths:
  "set (concat (map call_path (fsCalls (snd (bootROM ext filename data dl)))))
     \<subseteq> set (concat (map call_path (fsCalls dl))) \<union> {''/roms/'' @ filename}"
  by (auto simp: bootROM_def Let_def split: option.splits boot_method.splits)

lemma loadROMIntoRetroArch_paths:
  "set (concat (map call_path (retroCalls (loadROMIntoRetroArch filename data ra))))
     \<subseteq> set (concat (map call_path (retroCalls ra))) \<union> {''/tmp/'' @ filename}"
  by (auto simp: loadROMIntoRetroArch_def Let_def)

lemma step_staged_paths:
  "set (staged_paths (step ext e w)) \<subseteq> set (staged_paths w)
     \<union> {''/roms'', ''/saves'', ''/states'', ''/user''}
     \<union> {p. \<exists>filename. p = ''/roms/'' @ filename \<or> p = ''/tmp/'' @ filename}"
proof -
  let ?D = "set (concat (map call_path (fsCalls (dolphin w))))"
  let ?R = "set (concat (map call_path (retroCalls (retroArch w))))"
  have w: "set (staged_paths w) = ?D \<union> ?R"
    by (simp add: staged_paths_def)
  show ?thesis
  proof (cases e)
    case SetupFileSystem
    then have "set (staged_paths (step ext e w))
        = set (concat (map call_path (fsCalls (setupFileSystem ext (dolphin w))))) \<union> ?R"
      by (simp add: staged_paths_def)
    with setupFileSystem_paths [of ext "dolphin w"] w show ?thesis by blast
  next
    case (BootROM filename data)
    then have "set (staged_paths (step ext e w))
        = set (concat (map call_path (fsCalls (snd (bootROM ext filename data (dolphin w)))))) \<union> ?R"
      by (simp add: staged_paths_def)
    with bootROM_paths [of ext filename data "dolphin w"] w show ?thesis by blast
  next
    case (LoadROM filename data)
    then have "set (staged_paths (step ext e w))
        = ?D \<union> set (concat (map call_path (retroCalls (loadROMIntoRetroArch filename data (retroArch w)))))"
      by (simp add: staged_paths_def)
    with loadROMIntoRetroArch_paths [of filename data "retroArch w"] w show ?thesis by blast
  next
    case InstallClicked
    then have "set (staged_paths (step ext e w)) = set (staged_paths w)"
      by (simp add: staged_paths_def)
    then show ?thesis by blast
  next
    case ConfirmClicked
    then have "set (staged_paths (step ext e w)) = set (staged_paths w)"
      by (simp add: staged_paths_def)
    then show ?thesis by blast
  next
    case CancelClicked
    then have "set (staged_paths (step ext e w)) = set (staged_paths w)"
      by (simp add: staged_paths_def)
    then show ?thesis by blast
  next
    case (IntervalFired tid)
    then have "set (staged_paths (step ext e w)) = set (staged_paths w)"
      by (simp add: staged_paths_def)
    then show ?thesis by blast
  next
    case HideTimeoutFired
    then have "set (staged_paths (step ext e w)) = set (staged_paths w)"
      by (simp add: staged_paths_def)
    then show ?thesis by blast
  qed
qed

lemma run_staged_paths:
  "set (staged_paths (run ext es w)) \<subseteq> set (staged_paths w)
     \<union> {''/roms'', ''/saves'', ''/states'', ''/user''}
     \<union> {p. \<exists>filename. p = ''/roms/'' @ filename \<or> p = ''/tmp/'' @ filename}"
proof (induction es arbitrary: w)
  case Nil
  have "set (staged_paths (run ext [] w)) = set (staged_paths w)" by (simp add: run_def)
  then show ?case by blast
next
  case (Cons e es)
  have "set (staged_paths (run ext (e # es) w)) = set (staged_paths (run ext es (step ext e w)))"
    by (simp add: run_def)
  with Cons.IH [of "step ext e w"] step_staged_paths [of ext e w]
  show ?case by blast
qed

section \<open>Properties of the install flow\<close>

lemma installClick_present:
  assumes "modal_present (nandModal p)" "currentFile p = Some f" "currentFileType p = Some t"
  shows "installClick p =
     p\<lparr>nandModal := (nandModal p)\<lparr>modalDisplay := Some ''flex'',
              warningMessage := Some (installWarning f),
              confirmListeners := Some [ConfirmListener (Some InstallCurrentFile)],
              cancelListeners := Some [CancelListener]\<rparr>\<rparr>"
  using assms by (simp add: installClick_def showNandWarning_present)

lemma confirmClick_install:
  assumes "confirmListeners (nandModal p) = Some [ConfirmListener (Some InstallCurrentFile)]"
    and "statusDiv p \<noteq> None" "progressBar p \<noteq> None"
  shows "intervals (confirmClick p)
           = intervals p @ [(nextTimer p, currentFile p, currentFileType p, 0)]
       \<and> nextTimer (confirmClick p) = Suc (nextTimer p)
       \<and> progressEvents (confirmClick p) = progressEvents p
       \<and> modalDisplay (nandModal (confirmClick p)) = Some ''none''"
  using assms
  by (auto simp: confirmClick_def clickConfirm_single performNandInstallation_def Let_def
        split: option.splits)

lemma running_world:
  "page (run quiet [InstallClicked, ConfirmClicked] (loaded_world ''game.wad'' WAD)) =
     \<lparr>nandModal = \<lparr>modalDisplay = Some ''none'', warningMessage = Some (installWarning ''game.wad''),
                   confirmListeners = Some [ConfirmListener (Some InstallCurrentFile)],
                   cancelListeners = Some [CancelListener]\<rparr>,
      currentFile = Some ''game.wad'', currentFileType = Some WAD,
      statusDiv = Some (''info'', ''Installing WAD file to virtual NAND...''),
      progressBar = Some ''block'',
      fillWidth = Some 100, intervals = [(0, Some ''game.wad'', Some WAD, 0)], nextTimer = 1,
      progressEvents = [], lastWadDolInstall = None, hideTimeouts = 0\<rparr>"
  by (simp add: run_def loaded_world_def installClick_def showNandWarning_def confirmClick_def
        clickConfirm_def click_def performNandInstallation_def Let_def)

section \<open>The claims\<close>

subsection \<open>C1: size tolerance of a BootMii backup\<close>

text \<open>
  Claim C1. \<open>validateBackupSize\<close> computes the distance of the size from 512 MiB
  (536870912 bytes). Above 10 MiB (10485760) the result is invalid and its message is an
  error naming both sizes; otherwise, above 1 MiB (1048576) it is valid with a warning
  naming both sizes; otherwise it is valid with an empty message.
\<close>

theorem validateBackupSize_tolerance:
  "(\<bar>sz - 536870912\<bar> > 10485760 \<longrightarrow>
      validateBackupSize fmt sz =
        \<lparr>isValid = False,
         message = ''Error: File size ('' @ fmt sz
           @ '') does not match standard BootMii backup size ('' @ fmt 536870912
           @ ''). This may not be a valid backup file.'',
         isWarning = False\<rparr>)
   \<and> (\<not> \<bar>sz - 536870912\<bar> > 10485760 \<and> \<bar>sz - 536870912\<bar> > 1048576 \<longrightarrow>
      validateBackupSize fmt sz =
        \<lparr>isValid = True,
         message = ''Warning: File size ('' @ fmt sz
           @ '') differs slightly from standard BootMii backup size ('' @ fmt 536870912
           @ ''). Proceeding with validation...'',
         isWarning = True\<rparr>)
   \<and> (\<not> \<bar>sz - 536870912\<bar> > 1048576 \<longrightarrow>
      validateBackupSize fmt sz = \<lparr>isValid = True, message = '''', isWarning = False\<rparr>)"
  by (simp add: validateBackupSize_def BOOTMII_STANDARD_SIZE_def SIZE_TOLERANCE_def Let_def)

text \<open>
  The spec's example: eleven MiB over the standard size is rejected.
\<close>

theorem validateBackupSize_tolerance_witness:
  "\<bar>(548405248::int) - 536870912\<bar> > 10485760
   \<and> validateBackupSize (\<lambda>n. if n = 548405248 then ''523 MB'' else ''512 MB'') 548405248 =
        \<lparr>isValid = False,
         message = ''Error: File size (523 MB) does not match standard BootMii backup size (512 MB). This may not be a valid backup file.'',
         isWarning = False\<rparr>"
  using validateBackupSize_tolerance [of 548405248 "\<lambda>n. if n = 548405248 then ''523 MB'' else ''512 MB''"]
  by simp

subsection \<open>C2: buffers below the minimum size\<close>

text \<open>
  The rejection of an empty backup carries the fixed text of the source, which names no
  size: it holds no digit. The WAD and DOL checks answer with a bare \<open>false\<close>.
\<close>

theorem empty_backup_message_cites_no_size:
  "performBackupValidation [] =
     Inr \<lparr>isValid = False, message = ''Error: Backup file is empty.'', warnings = []\<rparr>
   \<and> set ''Error: Backup file is empty.'' \<inter> set ''0123456789'' = {}"
  by (simp add: performBackupValidation_def)

text \<open>
  Claim C2, amended. A buffer below the minimum size of its check (64 bytes for WAD,
  256 for DOL, 1 for a backup) is rejected at once, whatever its bytes are: the WAD and DOL
  checks return \<open>false\<close> and \<open>detectFileType\<close> returns \<open>null\<close>; the backup validation
  returns an invalid result with the single message \<open>Error: Backup file is empty.\<close> and
  no warnings. No read of the buffer takes place.
\<close>

theorem below_minimum_size_rejected:
  "(length b < 64 \<longrightarrow> validateWadFile b = Inr False \<and> detectFileType filename b = Inr None)
   \<and> (length b < 256 \<longrightarrow> validateDolFile b = Inr False)
   \<and> (length b < 1 \<longrightarrow> performBackupValidation b =
         Inr \<lparr>isValid = False, message = ''Error: Backup file is empty.'', warnings = []\<rparr>)"
  by (simp add: validateWadFile_eq validateDolFile_eq performBackupValidation_def
        detectFileType_def Let_def)

theorem below_minimum_size_rejected_witness:
  "length [1, 2, 3 :: byte] < 64 \<and> length [1, 2, 3 :: byte] < 256 \<and> length ([] :: byte list) < 1
   \<and> validateWadFile [1, 2, 3] = Inr False
   \<and> detectFileType ''game.wad'' [1, 2, 3] = Inr None
   \<and> validateDolFile [1, 2, 3] = Inr False
   \<and> performBackupValidation [] =
         Inr \<lparr>isValid = False, message = ''Error: Backup file is empty.'', warnings = []\<rparr>"
  using below_minimum_size_rejected [of "[1, 2, 3]" "''game.wad''"]
    below_minimum_size_rejected [of "[]" "''game.wad''"]
  by simp

subsection \<open>C3: short buffers in the backup validation\<close>

text \<open>
  Claim C3 says that \<open>performBackupValidation\<close> never throws on a non-empty buffer.
  The loop bound is \<open>i < Math.min(1024, byteLength)\<close>, but each step reads four bytes:
  on a buffer of one byte the first \<open>getUint32(0, true)\<close> is out of range and throws a
  RangeError.
\<close>

theorem performBackupValidation_one_byte_throws:
  "performBackupValidation [0] = Inl RangeError"
  by (simp add: performBackupValidation_def zeroScan.simps getUint32_def)

subsection \<open>C4: the zero-content heuristic\<close>

text \<open>
  Claim C4. For a buffer whose size passes \<open>validateBackupSize\<close>, the validation
  returns normally and is valid; its warnings are exactly the one text about an empty
  first kilobyte when all 256 little-endian words at offsets 0, 4, ..., 1020 are zero, and
  empty otherwise. The words are all zero exactly when the first 1024 bytes are.
\<close>

theorem zero_content_heuristic:
  assumes "isValid (validateBackupSize fmt (int (length b)))"
  shows "performBackupValidation b =
     Inr \<lparr>isValid = True, message = '''',
          warnings = (if (\<forall>k<256. getUint32 b (4 * k) True = Inr 0) then
             [''First 1KB of backup appears to be empty. This may indicate a corrupted backup.'']
             else [])\<rparr>
    \<and> ((\<forall>k<256. getUint32 b (4 * k) True = Inr 0) \<longleftrightarrow> set (take 1024 b) \<subseteq> {0})"
proof -
  from assms have len: "1024 \<le> length b"
    by (simp add: validateBackupSize_def BOOTMII_STANDARD_SIZE_def SIZE_TOLERANCE_def Let_def
          split: if_splits)
  then have "b \<noteq> []" and "4 dvd min 1024 (length b)"
    by (auto simp: min_def)
  then have "performBackupValidation b =
     Inr \<lparr>isValid = True, message = '''',
          warnings = (if set (take 1024 b) \<subseteq> {0} then
             [''First 1KB of backup appears to be empty. This may indicate a corrupted backup.'']
             else [])\<rparr>"
    by (rule performBackupValidation_aligned)
  with scanned_words_zero [OF len] show ?thesis by simp
qed

theorem zero_content_heuristic_witness:
  "isValid (validateBackupSize (\<lambda>n. ''512 MB'') (int (length (replicate 536870912 (0::byte)))))
   \<and> performBackupValidation (replicate 536870912 0) =
     Inr \<lparr>isValid = True, message = '''',
          warnings = [''First 1KB of backup appears to be empty. This may indicate a corrupted backup.'']\<rparr>"
proof -
  have v: "isValid (validateBackupSize (\<lambda>n. ''512 MB'') (int (length (replicate 536870912 (0::byte)))))"
    by (simp add: validateBackupSize_def BOOTMII_STANDARD_SIZE_def SIZE_TOLERANCE_def)
  have z: "set (take 1024 (replicate 536870912 (0::byte))) \<subseteq> {0}"
    by simp
  from zero_content_heuristic [OF v] z v show ?thesis by simp
qed

subsection \<open>C5: the WAD and DOL header checks\<close>

text \<open>
  A buffer of ten bytes is refused by both checks.
\<close>

theorem validateWadFile_short_buffer_false:
  "validateWadFile (replicate 10 0) = Inr False \<and> validateDolFile (replicate 10 0) = Inr False"
  by (simp add: validateWadFile_def validateDolFile_def)

text \<open>
  Claim C5, amended. \<open>validateWadFile\<close> returns true exactly for buffers of at least 64
  bytes and \<open>validateDolFile\<close> exactly for buffers of at least 256 bytes, whatever the
  bytes are, and neither throws; the same holds for the earlier copy of the handler.
\<close>

theorem header_checks_are_size_guards:
  "validateWadFile b = Inr (64 \<le> length b) \<and> validateDolFile b = Inr (256 \<le> length b)
   \<and> validateWadFile_part003 b = Inr (64 \<le> length b)
   \<and> validateDolFile_part003 b = Inr (256 \<le> length b)"
  by (simp add: validateWadFile_eq validateDolFile_eq validateWadFile_part003_def
        validateDolFile_part003_def)

theorem header_checks_are_size_guards_witness:
  "validateWadFile (replicate 64 255) = Inr True \<and> validateDolFile (replicate 256 255) = Inr True
   \<and> validateWadFile_part003 (replicate 63 255) = Inr False
   \<and> validateDolFile_part003 (replicate 255 255) = Inr False"
  using header_checks_are_size_guards [of "replicate 64 255"]
    header_checks_are_size_guards [of "replicate 256 255"]
    header_checks_are_size_guards [of "replicate 63 255"]
    header_checks_are_size_guards [of "replicate 255 255"]
  by simp

subsection \<open>C6: classification by file name\<close>

text \<open>
  The same file name is classified differently for buffers of different lengths.
\<close>

theorem detectFileType_depends_on_length:
  "detectFileType ''game.wad'' (replicate 10 0) = Inr None
   \<and> detectFileType ''game.wad'' (replicate 64 0) = Inr (Some WAD)"
proof -
  have ext: "toLowerCase (last (split (CHR ''.'') ''game.wad'')) = ''wad''"
    by code_simp
  show ?thesis
    by (simp only: detectFileType_def Let_def ext validateWadFile_eq length_replicate) simp
qed

text \<open>
  Claim C6, amended. \<open>detectFileType\<close> never throws, and its result is determined by
  the lower-cased last dot-separated segment of the file name together with the length of
  the buffer: WAD for \<open>wad\<close> and at least 64 bytes, DOL for \<open>dol\<close> and at least 256
  bytes, \<open>null\<close> in every other case. The bytes of the buffer play no part.
\<close>

theorem detectFileType_extension_and_length:
  "detectFileType filename b =
     Inr (if toLowerCase (last (split (CHR ''.'') filename)) = ''wad''
          then (if 64 \<le> length b then Some WAD else None)
          else if toLowerCase (last (split (CHR ''.'') filename)) = ''dol''
          then (if 256 \<le> length b then Some DOL else None)
          else None)"
  by (simp add: detectFileType_def validateWadFile_eq validateDolFile_eq Let_def)

theorem detectFileType_extension_and_length_witness:
  "detectFileType ''GAME.WaD'' (replicate 64 7) = Inr (Some WAD)
   \<and> detectFileType ''boot.v2.DOL'' (replicate 256 7) = Inr (Some DOL)
   \<and> detectFileType ''notes.txt'' (replicate 256 7) = Inr None"
proof -
  have x: "toLowerCase (last (split (CHR ''.'') ''GAME.WaD'')) = ''wad''"
    by code_simp
  have y: "toLowerCase (last (split (CHR ''.'') ''boot.v2.DOL'')) = ''dol''"
    by code_simp
  have z: "toLowerCase (last (split (CHR ''.'') ''notes.txt'')) = ''txt''"
    by code_simp
  have a: "detectFileType ''GAME.WaD'' (replicate 64 7) = Inr (Some WAD)"
    by (simp only: detectFileType_extension_and_length [of "''GAME.WaD''" "replicate 64 7"] x
          length_replicate) simp
  have b: "detectFileType ''boot.v2.DOL'' (replicate 256 7) = Inr (Some DOL)"
    by (simp only: detectFileType_extension_and_length [of "''boot.v2.DOL''" "replicate 256 7"] y
          length_replicate) simp
  have c: "detectFileType ''notes.txt'' (replicate 256 7) = Inr None"
    by (simp only: detectFileType_extension_and_length [of "''notes.txt''" "replicate 256 7"] z
          length_replicate) simp
  from a b c show ?thesis by simp
qed

subsection \<open>C7: the roots of the staged paths\<close>

text \<open>
  \<open>bootROM\<close> does not inspect the file name. With the name \<open>../x\<close> the write goes to
  \<open>/roms/../x\<close>, a path that leaves \<open>/roms\<close>, and the call returns true: nothing fails
  because of the path.
\<close>

theorem bootROM_traversal_name_accepted:
  "bootROM quiet ''../x'' [1, 2] (dolphin (loaded_world ''game.wad'' WAD))
     = (Inr True, (dolphin (loaded_world ''game.wad'' WAD))\<lparr>fsCalls := [WriteFile ''/roms/../x'' [1, 2]]\<rparr>)"
  by (simp add: bootROM_def loaded_world_def quiet_def Let_def)

text \<open>
  Claim C7, amended. Every path the code hands to a virtual file system is one of the
  four directories made by \<open>setupFileSystem\<close> or a file name prefixed with \<open>/roms/\<close>
  (\<open>bootROM\<close>) or \<open>/tmp/\<close> (\<open>loadROMIntoRetroArch\<close>); so, along every run, each path
  begins with one of the roots \<open>/roms\<close>, \<open>/saves\<close>, \<open>/states\<close>, \<open>/user\<close>, \<open>/tmp\<close>.
  The root is prefixed by the code itself: once the file system is available, a write is
  made for every file name, and no write is refused for its path.
\<close>

theorem staged_paths_rooted:
  assumes "\<forall>p \<in> set (staged_paths w).
             \<exists>r \<in> {''/roms'', ''/saves'', ''/states'', ''/user'', ''/tmp''}. under_root r p"
  shows "(\<forall>p \<in> set (staged_paths (run ext es w)).
             \<exists>r \<in> {''/roms'', ''/saves'', ''/states'', ''/user'', ''/tmp''}. under_root r p)
    \<and> (isReady (dolphin w) \<and> hasModuleFS (dolphin w) \<longrightarrow>
          fsCalls (dolphin (step ext (BootROM filename data) w))
            = fsCalls (dolphin w) @ [WriteFile (''/roms/'' @ filename) data])
    \<and> (moduleDefined (retroArch w) \<and> moduleHasFS (retroArch w) \<longrightarrow>
          retroCalls (retroArch (step ext (LoadROM filename data) w))
            = retroCalls (retroArch w) @ [WriteFile (''/tmp/'' @ filename) data])"
proof (intro conjI ballI impI)
  fix p assume "p \<in> set (staged_paths (run ext es w))"
  with run_staged_paths [of ext es w]
  consider "p \<in> set (staged_paths w)" | "p \<in> {''/roms'', ''/saves'', ''/states'', ''/user''}"
    | filename where "p = ''/roms/'' @ filename" | filename where "p = ''/tmp/'' @ filename"
    by blast
  then show "\<exists>r \<in> {''/roms'', ''/saves'', ''/states'', ''/user'', ''/tmp''}. under_root r p"
  proof cases
    case 1
    with assms show ?thesis by blast
  next
    case 2
    then show ?thesis by (auto simp: under_root_def)
  next
    case 3
    then have "under_root ''/roms'' p" by (simp add: under_root_def)
    then show ?thesis by blast
  next
    case 4
    then have "under_root ''/tmp'' p" by (simp add: under_root_def)
    then show ?thesis by blast
  qed
next
  assume "isReady (dolphin w) \<and> hasModuleFS (dolphin w)"
  then show "fsCalls (dolphin (step ext (BootROM filename data) w))
            = fsCalls (dolphin w) @ [WriteFile (''/roms/'' @ filename) data]"
    by (simp add: bootROM_def Let_def split: option.splits boot_method.splits)
next
  assume "moduleDefined (retroArch w) \<and> moduleHasFS (retroArch w)"
  then show "retroCalls (retroArch (step ext (LoadROM filename data) w))
            = retroCalls (retroArch w) @ [WriteFile (''/tmp/'' @ filename) data]"
    by (simp add: loadROMIntoRetroArch_def Let_def)
qed

theorem staged_paths_rooted_witness:
  "staged_paths (run quiet [SetupFileSystem] (loaded_world ''game.wad'' WAD))
     = [''/roms'', ''/saves'', ''/states'', ''/user'']
   \<and> staged_paths (run quiet [BootROM ''game.iso'' [1, 2], LoadROM ''game.iso'' [1, 2]]
        (run quiet [SetupFileSystem] (loaded_world ''game.wad'' WAD)))
     = [''/roms'', ''/saves'', ''/states'', ''/user'', ''/roms/game.iso'', ''/tmp/game.iso'']
   \<and> list_all (\<lambda>p. list_ex (\<lambda>r. under_root r p) [''/roms'', ''/saves'', ''/states'', ''/user'', ''/tmp''])
        (staged_paths (run quiet [BootROM ''game.iso'' [1, 2], LoadROM ''game.iso'' [1, 2]]
           (run quiet [SetupFileSystem] (loaded_world ''game.wad'' WAD))))"
proof -
  let ?w = "run quiet [SetupFileSystem] (loaded_world ''game.wad'' WAD)"
  let ?es = "[BootROM ''game.iso'' [1, 2], LoadROM ''game.iso'' [1, 2]]"
  have s: "staged_paths ?w = [''/roms'', ''/saves'', ''/states'', ''/user'']"
    by (simp add: staged_paths_def run_def loaded_world_def quiet_def setupFileSystem_def Let_def)
  have "under_root ''/roms'' ''/roms''" "under_root ''/saves'' ''/saves''"
    "under_root ''/states'' ''/states''" "under_root ''/user'' ''/user''"
    by (simp_all add: under_root_def)
  then have h: "\<forall>p \<in> set (staged_paths ?w).
       \<exists>r \<in> {''/roms'', ''/saves'', ''/states'', ''/user'', ''/tmp''}. under_root r p"
    unfolding s by (simp only: list.set ball_simps) blast
  have e: "staged_paths (run quiet ?es ?w)
       = [''/roms'', ''/saves'', ''/states'', ''/user'', ''/roms/game.iso'', ''/tmp/game.iso'']"
    by (simp add: staged_paths_def run_def loaded_world_def quiet_def setupFileSystem_def
          bootROM_def loadROMIntoRetroArch_def Let_def)
  from staged_paths_rooted [OF h, of quiet ?es]
  have "\<forall>p \<in> set (staged_paths (run quiet ?es ?w)).
       \<exists>r \<in> set [''/roms'', ''/saves'', ''/states'', ''/user'', ''/tmp'']. under_root r p"
    by (simp only: list.set) blast
  then have "list_all (\<lambda>p. list_ex (\<lambda>r. under_root r p) [''/roms'', ''/saves'', ''/states'', ''/user'', ''/tmp''])
        (staged_paths (run quiet ?es ?w))"
    by (simp only: list_all_iff list_ex_iff)
  with s e show ?thesis by (intro conjI)
qed

subsection \<open>C8: installations on the same file\<close>

text \<open>
  Two confirmed install requests for the same file, the second made before the first
  timer has fired: both timers are live.
\<close>

theorem two_installations_running_at_once:
  "map (fst \<circ> snd)
     (intervals (page (run quiet [InstallClicked, ConfirmClicked, InstallClicked, ConfirmClicked]
        (loaded_world ''game.wad'' WAD))))
   = [Some ''game.wad'', Some ''game.wad'']"
  by (simp add: run_def loaded_world_def installClick_def showNandWarning_def confirmClick_def
        clickConfirm_def click_def performNandInstallation_def Let_def)

text \<open>
  Claim C8, amended. The page keeps no record of running installations. Whenever a file
  is loaded and the page elements are present, a confirmed install request starts a new
  progress timer for the current file, whatever timers are already live: a request is
  accepted while an installation of the same file is running, and equally after it has
  finished.
\<close>

theorem install_request_never_refused:
  assumes "modal_present (nandModal (page w))"
    and "currentFile (page w) = Some f" and "currentFileType (page w) = Some t"
    and "statusDiv (page w) \<noteq> None" and "progressBar (page w) \<noteq> None"
  shows "intervals (page (run ext [InstallClicked, ConfirmClicked] w))
           = intervals (page w) @ [(nextTimer (page w), Some f, Some t, 0)]"
proof -
  note ic = installClick_present [OF assms(1-3)]
  let ?p = "installClick (page w)"
  have "confirmListeners (nandModal ?p) = Some [ConfirmListener (Some InstallCurrentFile)]"
    and "statusDiv ?p \<noteq> None" and "progressBar ?p \<noteq> None"
    using ic assms(4,5) by simp_all
  from confirmClick_install [OF this]
  have "intervals (confirmClick ?p) = intervals ?p @ [(nextTimer ?p, currentFile ?p, currentFileType ?p, 0)]"
    by blast
  moreover have "intervals ?p = intervals (page w)" "nextTimer ?p = nextTimer (page w)"
    "currentFile ?p = Some f" "currentFileType ?p = Some t"
    using ic assms(2,3) by simp_all
  ultimately show ?thesis by (simp add: run_def)
qed

theorem install_request_never_refused_witness:
  "intervals (page (run quiet [InstallClicked, ConfirmClicked] (loaded_world ''game.wad'' WAD)))
     = [(0, Some ''game.wad'', Some WAD, 0)]
   \<and> intervals (page (run quiet [InstallClicked, ConfirmClicked]
        (run quiet [InstallClicked, ConfirmClicked] (loaded_world ''game.wad'' WAD))))
     = [(0, Some ''game.wad'', Some WAD, 0), (1, Some ''game.wad'', Some WAD, 0)]"
  using install_request_never_refused
    [of "run quiet [InstallClicked, ConfirmClicked] (loaded_world ''game.wad'' WAD)"
        "''game.wad''" WAD quiet]
  by (simp add: running_world modal_present_def)

subsection \<open>C9: cancelling a pending request\<close>

text \<open>
  The cancel listener only hides the modal; the confirm button keeps the listener of the
  cancelled request. A later click on that button invokes the cancelled callback: in the
  modal alone, and on the page, where it starts the installation timer.
\<close>

theorem cancelled_callback_invoked_by_later_confirm:
  "fst (fold modal_step [Request ''first'' (Some (1::nat)), CancelClick, ConfirmClick]
        ([], \<lparr>modalDisplay = Some ''none'', warningMessage = Some [],
              confirmListeners = Some [], cancelListeners = Some []\<rparr>)) = [1]
   \<and> intervals (page (run quiet [InstallClicked, CancelClicked, ConfirmClicked]
        (loaded_world ''game.wad'' WAD))) = [(0, Some ''game.wad'', Some WAD, 0)]"
  by (simp add: run_def loaded_world_def installClick_def showNandWarning_def confirmClick_def
        cancelClick_def clickConfirm_def clickCancel_def click_def performNandInstallation_def
        Let_def)

text \<open>
  Claim C9, amended. After a request has put the modal on display, a click on the cancel
  button invokes no callback and changes nothing but the display of the modal: on the
  page, the file-system calls, the progress events and the live timers are as before.
  The request is hidden, not discarded: the confirm button keeps the listener with the
  callback of the cancelled request until the next request replaces the button. In every
  later run in which the buttons are clicked only while the modal is displayed, each
  callback invoked was supplied by a request of that run.
\<close>

theorem cancel_hides_pending_request:
  assumes "modal_present d"
    and "modal_present (nandModal (page w))"
    and "currentFile (page w) = Some f" and "currentFileType (page w) = Some t"
  shows "clickCancel (snd (showNandWarning msg onConfirm d))
           = ([], (snd (showNandWarning msg onConfirm d))\<lparr>modalDisplay := Some ''none''\<rparr>)
    \<and> confirmListeners (snd (clickCancel (snd (showNandWarning msg onConfirm d))))
         = Some [ConfirmListener onConfirm]
    \<and> (clicks_while_displayed es (snd (clickCancel (snd (showNandWarning msg onConfirm d)))) \<longrightarrow>
          set (fst (fold modal_step es ([], snd (clickCancel (snd (showNandWarning msg onConfirm d))))))
            \<subseteq> set (requested es))
    \<and> modalDisplay (nandModal (page (step ext InstallClicked w))) = Some ''flex''
    \<and> step ext CancelClicked (step ext InstallClicked w)
         = (step ext InstallClicked w)\<lparr>page := (page (step ext InstallClicked w))
              \<lparr>nandModal := (nandModal (page (step ext InstallClicked w)))
                 \<lparr>modalDisplay := Some ''none''\<rparr>\<rparr>\<rparr>
    \<and> staged_paths (step ext CancelClicked (step ext InstallClicked w))
         = staged_paths (step ext InstallClicked w)
    \<and> progressEvents (page (step ext CancelClicked (step ext InstallClicked w)))
         = progressEvents (page (step ext InstallClicked w))
    \<and> intervals (page (step ext CancelClicked (step ext InstallClicked w)))
         = intervals (page (step ext InstallClicked w))"
proof -
  let ?d = "snd (showNandWarning msg onConfirm d)"
  have cl: "cancelListeners ?d = Some [CancelListener]"
    using assms(1) by (simp add: showNandWarning_present)
  have c: "clickCancel ?d = ([], ?d\<lparr>modalDisplay := Some ''none''\<rparr>)"
    using cl by (rule clickCancel_single)
  have k: "confirmListeners (snd (clickCancel ?d)) = Some [ConfirmListener onConfirm]"
    using assms(1) by (simp add: c) (simp add: showNandWarning_present)
  have p: "modal_present (?d\<lparr>modalDisplay := Some ''none''\<rparr>)"
    using modal_present_showNandWarning [OF assms(1), of msg onConfirm]
    by (simp add: modal_present_def)
  have t: "clicks_while_displayed es (?d\<lparr>modalDisplay := Some ''none''\<rparr>) \<longrightarrow>
      set (fst (fold modal_step es ([], ?d\<lparr>modalDisplay := Some ''none''\<rparr>))) \<subseteq> set (requested es)"
  proof
    assume "clicks_while_displayed es (?d\<lparr>modalDisplay := Some ''none''\<rparr>)"
    from modal_run_invoked [OF p _ this, of "{}" "[]"] show
      "set (fst (fold modal_step es ([], ?d\<lparr>modalDisplay := Some ''none''\<rparr>))) \<subseteq> set (requested es)"
      by simp
  qed
  note ic = installClick_present [OF assms(2-4)]
  let ?p = "installClick (page w)"
  let ?w = "step ext InstallClicked w"
  have f: "modalDisplay (nandModal (page ?w)) = Some ''flex''" using ic by simp
  have cw: "cancelListeners (nandModal ?p) = Some [CancelListener]" using ic by simp
  have pc: "cancelClick ?p = ?p\<lparr>nandModal := (nandModal ?p)\<lparr>modalDisplay := Some ''none''\<rparr>\<rparr>"
    using clickCancel_single [OF cw] by (simp add: cancelClick_def)
  have s: "step ext CancelClicked ?w
         = ?w\<lparr>page := (page ?w)\<lparr>nandModal := (nandModal (page ?w))\<lparr>modalDisplay := Some ''none''\<rparr>\<rparr>\<rparr>"
    by (simp add: pc)
  have r: "staged_paths (step ext CancelClicked ?w) = staged_paths ?w"
    "progressEvents (page (step ext CancelClicked ?w)) = progressEvents (page ?w)"
    "intervals (page (step ext CancelClicked ?w)) = intervals (page ?w)"
    by (simp_all add: pc staged_paths_def)
  from t c have t': "clicks_while_displayed es (snd (clickCancel ?d)) \<longrightarrow>
      set (fst (fold modal_step es ([], snd (clickCancel ?d)))) \<subseteq> set (requested es)"
    by simp
  from c k t' f s r show ?thesis by (intro conjI)
qed

theorem cancel_hides_pending_request_witness:
  "modal_present \<lparr>modalDisplay = Some ''none'', warningMessage = Some [],
       confirmListeners = Some [], cancelListeners = Some []\<rparr>
   \<and> modal_present (nandModal (page (loaded_world ''game.wad'' WAD)))
   \<and> clicks_while_displayed [Request ''second'' (Some 2), ConfirmClick]
        (snd (clickCancel (snd (showNandWarning ''first'' (Some (1::nat))
           \<lparr>modalDisplay = Some ''none'', warningMessage = Some [],
            confirmListeners = Some [], cancelListeners = Some []\<rparr>))))
   \<and> confirmListeners (snd (clickCancel (snd (showNandWarning ''first'' (Some (1::nat))
           \<lparr>modalDisplay = Some ''none'', warningMessage = Some [],
            confirmListeners = Some [], cancelListeners = Some []\<rparr>))))
        = Some [ConfirmListener (Some 1)]
   \<and> fst (fold modal_step [Request ''second'' (Some 2), ConfirmClick]
        ([], snd (clickCancel (snd (showNandWarning ''first'' (Some (1::nat))
           \<lparr>modalDisplay = Some ''none'', warningMessage = Some [],
            confirmListeners = Some [], cancelListeners = Some []\<rparr>))))) = [2]
   \<and> intervals (page (step quiet CancelClicked (step quiet InstallClicked
        (loaded_world ''game.wad'' WAD)))) = []
   \<and> progressEvents (page (step quiet CancelClicked (step quiet InstallClicked
        (loaded_world ''game.wad'' WAD)))) = []"
  using cancel_hides_pending_request
    [of "\<lparr>modalDisplay = Some ''none'', warningMessage = Some [],
       confirmListeners = Some [], cancelListeners = Some []\<rparr> :: nat nand_modal"
        "loaded_world ''game.wad'' WAD" "''game.wad''" WAD "''first''" "Some 1"
        "[Request ''second'' (Some 2), ConfirmClick]" quiet]
  by (simp add: modal_present_def loaded_world_def showNandWarning_def clickCancel_def
        clickConfirm_def click_def installClick_def cancelClick_def Let_def)

subsection \<open>C10: only the latest request is confirmed\<close>

text \<open>
  Claim C10. With the four elements of the modal in the document, a call of
  \<open>showNandWarning\<close> leaves each button with exactly the one listener it registers,
  whatever listeners were there before. After any non-empty sequence of requests, one
  click on the confirm button invokes the callback of the last request once, if it has
  one, and no other callback, and hides the modal.
\<close>

theorem confirm_invokes_latest_request_only:
  assumes "modal_present d" and "rs \<noteq> []"
  shows "confirmListeners (snd (showNandWarning msg onConfirm d)) = Some [ConfirmListener onConfirm]
    \<and> cancelListeners (snd (showNandWarning msg onConfirm d)) = Some [CancelListener]
    \<and> clickConfirm (fold (\<lambda>r d. snd (showNandWarning (fst r) (snd r) d)) rs d)
        = ((case snd (last rs) of None \<Rightarrow> [] | Some cb \<Rightarrow> [cb]),
           (fold (\<lambda>r d. snd (showNandWarning (fst r) (snd r) d)) rs d)\<lparr>modalDisplay := Some ''none''\<rparr>)"
proof -
  from fold_requests_listeners [OF assms]
  have "confirmListeners (fold (\<lambda>r d. snd (showNandWarning (fst r) (snd r) d)) rs d)
       = Some [ConfirmListener (snd (last rs))]" by blast
  then have "clickConfirm (fold (\<lambda>r d. snd (showNandWarning (fst r) (snd r) d)) rs d)
        = ((case snd (last rs) of None \<Rightarrow> [] | Some cb \<Rightarrow> [cb]),
           (fold (\<lambda>r d. snd (showNandWarning (fst r) (snd r) d)) rs d)\<lparr>modalDisplay := Some ''none''\<rparr>)"
    by (rule clickConfirm_single)
  with assms(1) show ?thesis by (simp add: showNandWarning_present)
qed

theorem confirm_invokes_latest_request_only_witness:
  "modal_present \<lparr>modalDisplay = Some ''none'', warningMessage = Some [],
       confirmListeners = Some [ConfirmListener (Some (0::nat))], cancelListeners = Some []\<rparr>
   \<and> [(''a'', Some (1::nat)), (''b'', Some 2), (''c'', Some 3)] \<noteq> []
   \<and> fst (clickConfirm (fold (\<lambda>r d. snd (showNandWarning (fst r) (snd r) d))
        [(''a'', Some 1), (''b'', Some 2), (''c'', Some 3)]
        \<lparr>modalDisplay = Some ''none'', warningMessage = Some [],
         confirmListeners = Some [ConfirmListener (Some (0::nat))], cancelListeners = Some []\<rparr>))
      = [3]"
  using confirm_invokes_latest_request_only
    [of "\<lparr>modalDisplay = Some ''none'', warningMessage = Some [],
       confirmListeners = Some [ConfirmListener (Some (0::nat))], cancelListeners = Some []\<rparr>"
        "[(''a'', Some (1::nat)), (''b'', Some 2), (''c'', Some 3)]"]
  by (simp add: modal_present_def)

end
